theory Spec2Isabelle
  imports Main
begin

section \<open>Data model (src/main.go, lines 19-42)\<close>

text \<open>
  \<^verbatim>\<open>AppConfig\<close> is the immutable configuration of one managed program.
\<close>

record AppConfig =
  Name :: string
  Path :: string
  Args :: "string list"
  HealthURL :: string

text \<open>
  A \<^verbatim>\<open>*exec.Cmd\<close> is a pointer.  The model keeps the address of the pointed-to
  object (\<open>ptr\<close>), which is what the comparison \<^verbatim>\<open>app.Cmd == cmd\<close> looks at, and
  the \<^verbatim>\<open>Process\<close> field (the pid once the process has been created, \<open>None\<close>
  for Go's nil).  The nil pointer in \<^verbatim>\<open>AppState.Cmd\<close> is \<open>None\<close>.
\<close>

record exec_Cmd =
  ptr :: nat
  Process :: "nat option"

type_synonym time = nat

record AppState =
  Config :: AppConfig
  Cmd :: "exec_Cmd option"
  Running :: bool
  HealthStatus :: string
  HealthLastCheck :: time
  OutputBuffer :: string
  OutputChan :: "string list"

text \<open>
  The manager owns the map from names to records.  Its mutex is not a field of the
  model: every function below that takes and returns a \<open>Manager\<close> is one critical
  section of the source, executed atomically.
\<close>

record Manager =
  apps :: "string \<rightharpoonup> AppState"

text \<open>
  The source builds its errors with \<^verbatim>\<open>fmt.Errorf\<close>; the constructor records which
  \<^verbatim>\<open>return\<close> produced the error and \<open>error_text\<close> renders the message.
\<close>

datatype error =
    NotFound string
  | AlreadyRunning string
  | StdoutPipeFailure string string
  | StderrPipeFailure string string
  | StartFailure string string
  | NotRunning string
  | KillFailure string string

fun error_text :: "error \<Rightarrow> string" where
  "error_text (NotFound n) = ''app '' @ n @ '' not found''"
| "error_text (AlreadyRunning n) = ''app '' @ n @ '' is already running''"
| "error_text (StdoutPipeFailure n e) = ''failed to get stdout pipe for '' @ n @ '': '' @ e"
| "error_text (StderrPipeFailure n e) = ''failed to get stderr pipe for '' @ n @ '': '' @ e"
| "error_text (StartFailure n e) = ''failed to start app '' @ n @ '': '' @ e"
| "error_text (NotRunning n) = ''app '' @ n @ '' is not running''"
| "error_text (KillFailure n e) = ''failed to kill app '' @ n @ '': '' @ e"

text \<open>The background tasks a launch spawns (the two \<^verbatim>\<open>go func\<close> of \<^verbatim>\<open>StartApp\<close>).\<close>

datatype task =
    ReaderTask string exec_Cmd
  | WaiterTask string exec_Cmd

section \<open>NewManager (lines 45-59)\<close>

definition new_state :: "AppConfig \<Rightarrow> AppState" where
  "new_state cfg =
     \<lparr>Config = cfg, Cmd = None, Running = False, HealthStatus = ''Unknown'',
      HealthLastCheck = 0, OutputBuffer = [], OutputChan = []\<rparr>"

fun NewManager_loop :: "AppConfig list \<Rightarrow> (string \<rightharpoonup> AppState) \<Rightarrow> (string \<rightharpoonup> AppState)" where
  "NewManager_loop [] a = a"
| "NewManager_loop (cfg # cfgs) a = NewManager_loop cfgs (a(Name cfg \<mapsto> new_state cfg))"

definition NewManager :: "AppConfig list \<Rightarrow> Manager" where
  "NewManager configs = \<lparr>apps = NewManager_loop configs Map.empty\<rparr>"

section \<open>StartApp (lines 62-146)\<close>

text \<open>
  What the operating system answers during one call of \<^verbatim>\<open>StartApp\<close>: the error of
  \<^verbatim>\<open>cmd.StdoutPipe()\<close>, of \<^verbatim>\<open>cmd.StderrPipe()\<close>, the outcome of
  \<^verbatim>\<open>cmd.Start()\<close> (an error, or the pid of the created process), and the address
  at which \<^verbatim>\<open>exec.Command\<close> allocated the new \<^verbatim>\<open>Cmd\<close>.
\<close>

record spawn_env =
  new_ptr :: nat
  stdout_pipe_err :: "string option"
  stderr_pipe_err :: "string option"
  start_result :: "string + nat"

definition StartApp ::
  "spawn_env \<Rightarrow> string \<Rightarrow> Manager \<Rightarrow> error option \<times> Manager \<times> task list" where
  "StartApp env appName m =
     (case apps m appName of
        None \<Rightarrow> (Some (NotFound appName), m, [])
      | Some app \<Rightarrow>
          if Running app then (Some (AlreadyRunning appName), m, [])
          else
            (case stdout_pipe_err env of
               Some e \<Rightarrow> (Some (StdoutPipeFailure appName e), m, [])
             | None \<Rightarrow>
                 (case stderr_pipe_err env of
                    Some e \<Rightarrow> (Some (StderrPipeFailure appName e), m, [])
                  | None \<Rightarrow>
                      (case start_result env of
                         Inl e \<Rightarrow> (Some (StartFailure appName e), m, [])
                       | Inr pid \<Rightarrow>
                           (let cmd = \<lparr>ptr = new_ptr env, Process = Some pid\<rparr>;
                                app1 = app\<lparr>Cmd := Some cmd\<rparr>;
                                app2 = app1\<lparr>Running := True\<rparr>;
                                app3 = app2\<lparr>OutputBuffer := []\<rparr>
                            in (None, m\<lparr>apps := (apps m)(appName \<mapsto> app3)\<rparr>,
                                [ReaderTask appName cmd, WaiterTask appName cmd]))))))"

section \<open>The background tasks of one launch (lines 98-142)\<close>

text \<open>
  One locked section of the reader task: append the chunk, and once the buffer holds
  more than 4096 bytes replace it by its trailing 2048 bytes.
\<close>

definition capture_write :: "string \<Rightarrow> AppState \<Rightarrow> AppState" where
  "capture_write line app =
     (let app1 = app\<lparr>OutputBuffer := OutputBuffer app @ line\<rparr>
      in if length (OutputBuffer app1) > 4096
         then app1\<lparr>OutputBuffer :=
                drop (length (OutputBuffer app1) - 2048) (OutputBuffer app1)\<rparr>
         else app1)"

text \<open>
  The non-blocking send on the channel of capacity 100: a full channel drops the chunk.
  Nothing in the source receives from the channel.
\<close>

definition chan_send :: "string \<Rightarrow> AppState \<Rightarrow> AppState" where
  "chan_send line app =
     (if length (OutputChan app) < 100 then app\<lparr>OutputChan := OutputChan app @ [line]\<rparr>
      else app)"

text \<open>
  The tasks reach the record through the pointer \<^verbatim>\<open>app\<close> that \<^verbatim>\<open>StartApp\<close> read
  from the map.  No entry of the map is ever replaced or deleted after construction, so
  the pointer and the name denote the same record; \<open>update_app\<close> is a write through
  that pointer.
\<close>

definition update_app :: "string \<Rightarrow> (AppState \<Rightarrow> AppState) \<Rightarrow> Manager \<Rightarrow> Manager" where
  "update_app appName f m =
     (case apps m appName of
        None \<Rightarrow> m
      | Some app \<Rightarrow> m\<lparr>apps := (apps m)(appName \<mapsto> f app)\<rparr>)"

datatype read_error = EOF | ReadError string

text \<open>
  One iteration of the reader's loop on the outcome \<^verbatim>\<open>(n, err)\<close> of
  \<^verbatim>\<open>reader.Read(buf)\<close>, the chunk being \<^verbatim>\<open>buf[:n]\<close>.
\<close>

definition reader_step :: "string \<Rightarrow> string \<Rightarrow> Manager \<Rightarrow> Manager" where
  "reader_step appName chunk m =
     (if length chunk > 0
      then update_app appName (chan_send chunk) (update_app appName (capture_write chunk) m)
      else m)"

text \<open>
  The reader's loop over the successive outcomes of \<^verbatim>\<open>Read\<close>; it leaves the loop at
  the first outcome that carries an error.  The list is the reads observed so far.
\<close>

fun reader :: "string \<Rightarrow> (string \<times> read_error option) list \<Rightarrow> Manager \<Rightarrow> Manager" where
  "reader appName [] m = m"
| "reader appName ((chunk, err) # rs) m =
     (let m1 = reader_step appName chunk m
      in if err \<noteq> None then m1 else reader appName rs m1)"

text \<open>The pointer comparison \<^verbatim>\<open>app.Cmd == cmd\<close> (\<^verbatim>\<open>cmd\<close> is never nil).\<close>

definition same_cmd :: "exec_Cmd option \<Rightarrow> exec_Cmd \<Rightarrow> bool" where
  "same_cmd p cmd = (case p of None \<Rightarrow> False | Some c \<Rightarrow> ptr c = ptr cmd)"

text \<open>
  The locked section of the exit-waiter, run when \<^verbatim>\<open>cmd.Wait()\<close> has returned;
  \<open>wait_err\<close> is the error of \<^verbatim>\<open>Wait\<close> (\<open>None\<close> for nil).
\<close>

definition exit_waiter_write :: "exec_Cmd \<Rightarrow> string option \<Rightarrow> AppState \<Rightarrow> AppState" where
  "exit_waiter_write cmd wait_err app =
     (if same_cmd (Cmd app) cmd
      then (let app1 = app\<lparr>Running := False\<rparr>;
                app2 = app1\<lparr>Cmd := None\<rparr>
            in case wait_err of
                 Some e \<Rightarrow> app2\<lparr>HealthStatus := ''Exited: '' @ e\<rparr>
               | None \<Rightarrow> app2\<lparr>HealthStatus := ''Stopped''\<rparr>)
      else app)"

definition exit_waiter :: "string \<Rightarrow> exec_Cmd \<Rightarrow> string option \<Rightarrow> Manager \<Rightarrow> Manager" where
  "exit_waiter appName cmd wait_err m = update_app appName (exit_waiter_write cmd wait_err) m"

section \<open>StopApp (lines 149-169)\<close>

text \<open>\<open>kill_err\<close> is the error of \<^verbatim>\<open>app.Cmd.Process.Kill()\<close> (\<open>None\<close> for nil).\<close>

definition StopApp :: "string option \<Rightarrow> string \<Rightarrow> Manager \<Rightarrow> error option \<times> Manager" where
  "StopApp kill_err appName m =
     (case apps m appName of
        None \<Rightarrow> (Some (NotFound appName), m)
      | Some app \<Rightarrow>
          if \<not> Running app \<or> (case Cmd app of None \<Rightarrow> True | Some c \<Rightarrow> Process c = None)
          then (Some (NotRunning appName), m)
          else
            (case kill_err of
               Some e \<Rightarrow> (Some (KillFailure appName e), m)
             | None \<Rightarrow>
                 (let app1 = app\<lparr>Running := False\<rparr>;
                      app2 = app1\<lparr>HealthStatus := ''Stopped''\<rparr>;
                      app3 = app2\<lparr>Cmd := None\<rparr>
                  in (None, m\<lparr>apps := (apps m)(appName \<mapsto> app3)\<rparr>))))"

section \<open>CheckAppHealth (lines 172-201)\<close>

text \<open>Decimal rendering of an integer, the \<^verbatim>\<open>%d\<close> of \<^verbatim>\<open>fmt.Sprintf\<close>.\<close>

fun string_of_nat :: "nat \<Rightarrow> string" where
  "string_of_nat n =
     (if n < 10 then [''0123456789'' ! n]
      else string_of_nat (n div 10) @ [''0123456789'' ! (n mod 10)])"

declare string_of_nat.simps [simp del]

definition string_of_int :: "int \<Rightarrow> string" where
  "string_of_int i = (if i < 0 then ''-'' @ string_of_nat (nat (- i)) else string_of_nat (nat i))"

text \<open>
  What a decimal numeral denotes, read digit by digit, and which strings are numerals
  as \<^verbatim>\<open>%d\<close> writes them: digits only, an optional leading minus sign, no leading
  zero, no "-0".  Neither refers to \<open>string_of_int\<close>; they say what its result must be.
\<close>

definition digit_val :: "char \<Rightarrow> nat" where
  "digit_val c = of_char c - 48"

definition nat_of_decimal :: "string \<Rightarrow> nat" where
  "nat_of_decimal ds = foldl (\<lambda>acc c. 10 * acc + digit_val c) 0 ds"

definition int_of_decimal :: "string \<Rightarrow> int" where
  "int_of_decimal s =
     (case s of
        [] \<Rightarrow> 0
      | c # ds \<Rightarrow> if c = CHR ''-'' then - int (nat_of_decimal ds) else int (nat_of_decimal s))"

definition is_digit :: "char \<Rightarrow> bool" where
  "is_digit c = (48 \<le> (of_char c :: nat) \<and> (of_char c :: nat) \<le> 57)"

definition canonical_nat :: "string \<Rightarrow> bool" where
  "canonical_nat ds = (ds \<noteq> [] \<and> list_all is_digit ds \<and> (length ds = 1 \<or> hd ds \<noteq> CHR ''0''))"

definition canonical_decimal :: "string \<Rightarrow> bool" where
  "canonical_decimal s =
     (case s of
        [] \<Rightarrow> False
      | c # ds \<Rightarrow> if c = CHR ''-'' then canonical_nat ds \<and> ds \<noteq> ''0'' else canonical_nat s)"

text \<open>
  The outcome of \<^verbatim>\<open>client.Get\<close>: an error (connection refused, timeout, ...) with
  its message, or a response with its status code.
\<close>

datatype http_result = HttpError string | HttpResponse int

text \<open>
  The world as one probe sees it: what a GET on a URL answers, and the clock read by
  \<^verbatim>\<open>time.Now()\<close> when the probe writes its result.
\<close>

record probe_env =
  http_get :: "string \<Rightarrow> http_result"
  now :: time

text \<open>The network calls a function makes are returned beside the new state.\<close>

datatype event = HttpGet string

definition CheckAppHealth :: "probe_env \<Rightarrow> AppState \<Rightarrow> AppState \<times> event list" where
  "CheckAppHealth env app =
     (if HealthURL (Config app) = []
      then (let app1 = app\<lparr>HealthStatus := ''N/A''\<rparr>
            in (app1\<lparr>HealthLastCheck := now env\<rparr>, []))
      else
        (let resp = http_get env (HealthURL (Config app));
             app1 = app\<lparr>HealthLastCheck := now env\<rparr>
         in (case resp of
               HttpError e \<Rightarrow> app1\<lparr>HealthStatus := ''Error: '' @ e\<rparr>
             | HttpResponse code \<Rightarrow>
                 if code = 200 then app1\<lparr>HealthStatus := ''Healthy''\<rparr>
                 else app1\<lparr>HealthStatus := ''Degraded ('' @ string_of_int code @ '')''\<rparr>,
             [HttpGet (HealthURL (Config app))])))"

section \<open>RunHealthChecks (lines 204-227)\<close>

text \<open>
  The body of the inner loop, for one record.  The loop reads \<^verbatim>\<open>app.Running\<close>
  without the lock and writes later, under the lock: \<open>seen\<close> is the flag as it was
  read, \<open>app\<close> the record as it is when the write happens.
\<close>

definition health_check_write ::
  "probe_env \<Rightarrow> bool \<Rightarrow> AppState \<Rightarrow> AppState \<times> event list" where
  "health_check_write env seen app =
     (if seen then CheckAppHealth env app
      else (let app1 = app\<lparr>HealthStatus := ''Stopped''\<rparr>
            in (app1\<lparr>HealthLastCheck := now env\<rparr>, [])))"

text \<open>The same when nothing happens to the record between the read and the write.\<close>

definition health_check_app :: "probe_env \<Rightarrow> AppState \<Rightarrow> AppState \<times> event list" where
  "health_check_app env app = health_check_write env (Running app) app"

text \<open>
  One tick, run without interruption.  Go ranges over the map in an unspecified order,
  so the order in which the records are visited is the parameter \<open>names\<close>; each
  record has its own \<open>probe_env\<close>, the clock having moved between two records.
\<close>

fun health_tick ::
  "(string \<Rightarrow> probe_env) \<Rightarrow> string list \<Rightarrow> Manager \<Rightarrow> Manager \<times> event list" where
  "health_tick envs [] m = (m, [])"
| "health_tick envs (n # ns) m =
     (case apps m n of
        None \<Rightarrow> health_tick envs ns m
      | Some app \<Rightarrow>
          (let (app', evs) = health_check_app (envs n) app;
               (m', evs') = health_tick envs ns (m\<lparr>apps := (apps m)(n \<mapsto> app')\<rparr>)
           in (m', evs @ evs')))"

section \<open>getAppOutputHandler (lines 286-313)\<close>

definition newline :: char where
  "newline = CHR 0x0A"

text \<open>
  \<^verbatim>\<open>bytes.Split(s, []byte("\n"))\<close>: cut at every newline; a text with \<open>k\<close>
  newlines gives \<open>k + 1\<close> pieces, the empty text gives one empty piece.
\<close>

function bytes_Split :: "string \<Rightarrow> string list" where
  "bytes_Split s =
     (if newline \<in> set s
      then takeWhile (\<lambda>c. c \<noteq> newline) s # bytes_Split (tl (dropWhile (\<lambda>c. c \<noteq> newline) s))
      else [s])"
  by pat_completeness auto
termination
proof (relation "measure length")
  show "wf (measure length)" by simp
next
  fix s :: string
  assume "newline \<in> set s"
  then have "dropWhile (\<lambda>c. c \<noteq> newline) s \<noteq> []" by simp
  then have "length (tl (dropWhile (\<lambda>c. c \<noteq> newline) s)) < length (dropWhile (\<lambda>c. c \<noteq> newline) s)"
    by (cases "dropWhile (\<lambda>c. c \<noteq> newline) s") simp_all
  also have "\<dots> \<le> length s" by (rule length_dropWhile_le)
  finally show "(tl (dropWhile (\<lambda>c. c \<noteq> newline) s), s) \<in> measure length" by simp
qed

declare bytes_Split.simps [simp del]

text \<open>\<^verbatim>\<open>bytes.Join(s, []byte("\n"))\<close>.\<close>

fun bytes_Join :: "string list \<Rightarrow> string" where
  "bytes_Join [] = []"
| "bytes_Join [x] = x"
| "bytes_Join (x # y # ys) = x @ [newline] @ bytes_Join (y # ys)"

definition last_lines :: "string \<Rightarrow> string" where
  "last_lines output =
     (let lines = bytes_Split output;
          numLines = length lines;
          start = (if numLines > 50 then numLines - 50 else 0)
      in bytes_Join (drop start lines))"

record http_response =
  status :: nat
  body :: string


section \<open>Interleavings\<close>

text \<open>
  The locked sections of the source run one at a time, in any order: the calls of
  \<^verbatim>\<open>StartApp\<close> and \<^verbatim>\<open>StopApp\<close>, the writes of the reader tasks, the exit-waiters
  and the writes of the health-check loop.  A schedule is a list of such steps, each
  with what the outside world answers to it; \<open>run\<close> performs them in order.
\<close>

datatype action =
    DoStart spawn_env string
  | DoStop "string option" string
  | DoRead string string
  | DoExit string exec_Cmd "string option"
  | DoHealth probe_env bool string

fun perform :: "action \<Rightarrow> Manager \<Rightarrow> Manager" where
  "perform (DoStart env appName) m = fst (snd (StartApp env appName m))"
| "perform (DoStop kill_err appName) m = snd (StopApp kill_err appName m)"
| "perform (DoRead appName chunk) m = reader_step appName chunk m"
| "perform (DoExit appName cmd wait_err) m = exit_waiter appName cmd wait_err m"
| "perform (DoHealth env seen appName) m =
     update_app appName (\<lambda>app. fst (health_check_write env seen app)) m"

fun run :: "action list \<Rightarrow> Manager \<Rightarrow> Manager" where
  "run [] m = m"
| "run (a # as) m = run as (perform a m)"

section \<open>Concrete inputs\<close>

definition echo_cfg :: AppConfig where
  "echo_cfg = \<lparr>Name = ''Echo'', Path = ''/bin/echo'', Args = [''hello''], HealthURL = []\<rparr>"

definition web_cfg :: AppConfig where
  "web_cfg = \<lparr>Name = ''Web'', Path = ''/srv/web'', Args = [''--port'', ''6972''],
     HealthURL = ''http://127.0.0.1:6972/health''\<rparr>"

definition mgr0 :: Manager where
  "mgr0 = NewManager [echo_cfg, web_cfg]"

definition spawn_ok :: "nat \<Rightarrow> nat \<Rightarrow> spawn_env" where
  "spawn_ok a pid =
     \<lparr>new_ptr = a, stdout_pipe_err = None, stderr_pipe_err = None, start_result = Inr pid\<rparr>"

definition spawn_fail :: spawn_env where
  "spawn_fail =
     \<lparr>new_ptr = 1, stdout_pipe_err = None, stderr_pipe_err = None,
      start_result = Inl ''exec: no such file or directory''\<rparr>"

definition pipe_fail :: spawn_env where
  "pipe_fail =
     \<lparr>new_ptr = 1, stdout_pipe_err = Some ''too many open files'', stderr_pipe_err = None,
      start_result = Inr 4242\<rparr>"

text \<open>The manager after a first successful \<^verbatim>\<open>StartApp("Echo")\<close>.\<close>

definition mgr1 :: Manager where
  "mgr1 = fst (snd (StartApp (spawn_ok 1 4242) ''Echo'' mgr0))"

text \<open>... after a following successful \<^verbatim>\<open>StopApp("Echo")\<close>.\<close>

definition mgr2 :: Manager where
  "mgr2 = snd (StopApp None ''Echo'' mgr1)"

text \<open>... and after a second successful \<^verbatim>\<open>StartApp("Echo")\<close>, at a new address.\<close>

definition mgr3 :: Manager where
  "mgr3 = fst (snd (StartApp (spawn_ok 2 4243) ''Echo'' mgr2))"

definition cmd1 :: exec_Cmd where
  "cmd1 = \<lparr>ptr = 1, Process = Some 4242\<rparr>"

definition cmd2 :: exec_Cmd where
  "cmd2 = \<lparr>ptr = 2, Process = Some 4243\<rparr>"

text \<open>A second program started instead: \<^verbatim>\<open>StartApp("Web")\<close> on the fresh manager.\<close>

definition mgrW :: Manager where
  "mgrW = fst (snd (StartApp (spawn_ok 3 5000) ''Web'' mgr0))"

definition cmdW :: exec_Cmd where
  "cmdW = \<lparr>ptr = 3, Process = Some 5000\<rparr>"

text \<open>A world in which every GET has the same outcome and the clock shows \<open>t\<close>.\<close>

definition probe_world :: "http_result \<Rightarrow> time \<Rightarrow> probe_env" where
  "probe_world r t = \<lparr>http_get = (\<lambda>url. r), now = t\<rparr>"

text \<open>Two configurations with the same name.\<close>

definition dup_first :: AppConfig where
  "dup_first = \<lparr>Name = ''Echo'', Path = ''/bin/echo'', Args = [''one''], HealthURL = []\<rparr>"

definition dup_second :: AppConfig where
  "dup_second = \<lparr>Name = ''Echo'', Path = ''/usr/bin/printf'', Args = [''two''], HealthURL = []\<rparr>"

text \<open>Sixty lines, \<open>1\<close> to \<open>60\<close>, separated by newlines.\<close>

definition sixty_lines :: string where
  "sixty_lines = bytes_Join (map string_of_nat [1..<61])"

text \<open>A record whose buffer holds 4000 bytes.\<close>

definition nearly_full :: AppState where
  "nearly_full = (new_state echo_cfg)\<lparr>OutputBuffer := replicate 4000 (CHR ''a'')\<rparr>"

text \<open>A tick during which every GET is answered with 200 and the clock shows 99.\<close>

definition tick_world :: "string \<Rightarrow> probe_env" where
  "tick_world n = probe_world (HttpResponse 200) 99"

text \<open>The running "Echo" after its reader has captured the sixty lines in one chunk.\<close>

definition mgr_out :: Manager where
  "mgr_out = reader ''Echo'' [(sixty_lines, None)] mgr1"

section \<open>Facts about the concrete inputs\<close>

lemma mgr0_Echo: "apps mgr0 ''Echo'' = Some (new_state echo_cfg)"
  by (simp add: mgr0_def NewManager_def echo_cfg_def web_cfg_def)

lemma mgr0_Web: "apps mgr0 ''Web'' = Some (new_state web_cfg)"
  by (simp add: mgr0_def NewManager_def echo_cfg_def web_cfg_def)

lemma mgr0_Nope: "apps mgr0 ''Nope'' = None"
  by (simp add: mgr0_def NewManager_def echo_cfg_def web_cfg_def)

lemma mgr1_Echo:
  "apps mgr1 ''Echo'' = Some ((new_state echo_cfg)\<lparr>Cmd := Some cmd1, Running := True\<rparr>)"
  by (simp add: Let_def mgr1_def StartApp_def mgr0_Echo spawn_ok_def new_state_def cmd1_def)

lemma mgr2_Echo:
  "apps mgr2 ''Echo'' = Some ((new_state echo_cfg)\<lparr>HealthStatus := ''Stopped''\<rparr>)"
  by (simp add: Let_def mgr2_def StopApp_def mgr1_Echo new_state_def cmd1_def)

lemma mgr3_Echo:
  "apps mgr3 ''Echo'' =
     Some ((new_state echo_cfg)\<lparr>Cmd := Some cmd2, Running := True, HealthStatus := ''Stopped''\<rparr>)"
  by (simp add: Let_def mgr3_def StartApp_def mgr2_Echo spawn_ok_def new_state_def cmd2_def)

lemma sixty_lines_length: "length sixty_lines = 170"
  unfolding sixty_lines_def by code_simp

lemma mgr_out_Echo: "map_option OutputBuffer (apps mgr_out ''Echo'') = Some sixty_lines"
  by (simp add: mgr_out_def reader_step_def update_app_def mgr1_Echo capture_write_def
      chan_send_def Let_def new_state_def sixty_lines_length)

section \<open>StartApp: the contract\<close>

text \<open>
  Claim C1.  For every app name, \<^verbatim>\<open>StartApp\<close> fails with NotFound when the name is
  not a key of the manager's map, and fails with AlreadyRunning when the record's
  \<^verbatim>\<open>Running\<close> flag is true; both leave the manager as it was and spawn no task.
  Otherwise, when both pipes are obtained and the process is created, it returns no
  error and the record then has \<^verbatim>\<open>Running\<close> true, holds the handle of the new
  process and has an empty output buffer.
\<close>

theorem StartApp_contract:
  "(apps m appName = None \<longrightarrow>
      StartApp env appName m = (Some (NotFound appName), m, []))
   \<and> (apps m appName = Some app \<and> Running app \<longrightarrow>
      StartApp env appName m = (Some (AlreadyRunning appName), m, []))
   \<and> (apps m appName = Some app \<and> \<not> Running app \<and> stdout_pipe_err env = None
        \<and> stderr_pipe_err env = None \<and> start_result env = Inr pid \<longrightarrow>
      fst (StartApp env appName m) = None
      \<and> map_option Running (apps (fst (snd (StartApp env appName m))) appName) = Some True
      \<and> map_option Cmd (apps (fst (snd (StartApp env appName m))) appName)
          = Some (Some \<lparr>ptr = new_ptr env, Process = Some pid\<rparr>)
      \<and> map_option OutputBuffer (apps (fst (snd (StartApp env appName m))) appName) = Some [])"
  by (simp add: StartApp_def Let_def)

theorem StartApp_contract_witness:
  "apps mgr0 ''Nope'' = None
   \<and> StartApp (spawn_ok 1 4242) ''Nope'' mgr0 = (Some (NotFound ''Nope''), mgr0, [])
   \<and> map_option Running (apps mgr1 ''Echo'') = Some True
   \<and> StartApp (spawn_ok 2 4243) ''Echo'' mgr1 = (Some (AlreadyRunning ''Echo''), mgr1, [])
   \<and> map_option Running (apps mgr0 ''Echo'') = Some False
   \<and> fst (StartApp (spawn_ok 1 4242) ''Echo'' mgr0) = None
   \<and> map_option Cmd (apps mgr1 ''Echo'') = Some (Some cmd1)
   \<and> map_option OutputBuffer (apps mgr1 ''Echo'') = Some []"
proof -
  have a: "StartApp (spawn_ok 1 4242) ''Nope'' mgr0 = (Some (NotFound ''Nope''), mgr0, [])"
    using StartApp_contract [where m = mgr0 and appName = "''Nope''" and env = "spawn_ok 1 4242"]
      mgr0_Nope by simp
  have b: "StartApp (spawn_ok 2 4243) ''Echo'' mgr1 = (Some (AlreadyRunning ''Echo''), mgr1, [])"
    using StartApp_contract [where m = mgr1 and appName = "''Echo''" and env = "spawn_ok 2 4243"
      and app = "(new_state echo_cfg)\<lparr>Cmd := Some cmd1, Running := True\<rparr>"] mgr1_Echo
    by simp
  have c: "fst (StartApp (spawn_ok 1 4242) ''Echo'' mgr0) = None
      \<and> map_option Running (apps mgr1 ''Echo'') = Some True
      \<and> map_option Cmd (apps mgr1 ''Echo'') = Some (Some cmd1)
      \<and> map_option OutputBuffer (apps mgr1 ''Echo'') = Some []"
    using StartApp_contract [where m = mgr0 and appName = "''Echo''" and env = "spawn_ok 1 4242"
      and app = "new_state echo_cfg" and pid = 4242] mgr0_Echo
    by (simp add: new_state_def spawn_ok_def mgr1_def cmd1_def)
  show ?thesis using a b c by (simp add: mgr0_Nope mgr0_Echo new_state_def)
qed

lemma StartApp_mgr0:
  "StartApp (spawn_ok 1 4242) ''Echo'' mgr0
     = (None, mgr1, [ReaderTask ''Echo'' cmd1, WaiterTask ''Echo'' cmd1])"
  by (simp add: mgr1_def StartApp_def Let_def mgr0_Echo spawn_ok_def new_state_def cmd1_def)

lemma StopApp_mgr1: "StopApp None ''Echo'' mgr1 = (None, mgr2)"
  by (simp add: mgr2_def StopApp_def Let_def mgr1_Echo new_state_def cmd1_def)

lemma StartApp_mgr2:
  "StartApp (spawn_ok 2 4243) ''Echo'' mgr2
     = (None, mgr3, [ReaderTask ''Echo'' cmd2, WaiterTask ''Echo'' cmd2])"
  by (simp add: mgr3_def StartApp_def Let_def mgr2_Echo spawn_ok_def new_state_def cmd2_def)

lemma StartApp_spawn_fail:
  "StartApp spawn_fail ''Echo'' mgr0
     = (Some (StartFailure ''Echo'' ''exec: no such file or directory''), mgr0, [])"
  by (simp add: StartApp_def spawn_fail_def mgr0_Echo new_state_def)

lemma StartApp_pipe_fail:
  "StartApp pipe_fail ''Echo'' mgr0
     = (Some (StdoutPipeFailure ''Echo'' ''too many open files''), mgr0, [])"
  by (simp add: StartApp_def pipe_fail_def mgr0_Echo new_state_def)

lemma StopApp_kill_fail:
  "StopApp (Some ''os: process already finished'') ''Echo'' mgr1
     = (Some (KillFailure ''Echo'' ''os: process already finished''), mgr1)"
  by (simp add: StopApp_def mgr1_Echo new_state_def cmd1_def)

section \<open>StopApp: the contract\<close>

text \<open>
  Claim C2, as the code has it.  \<^verbatim>\<open>StopApp\<close> fails with NotFound when the name is
  unknown, and with NotRunning when \<^verbatim>\<open>Running\<close> is false or no live handle is stored
  (\<^verbatim>\<open>Cmd\<close> is nil or its \<^verbatim>\<open>Process\<close> is nil).  Otherwise it sends the kill signal:
  when the signal is delivered it sets \<^verbatim>\<open>Running\<close> to false, \<^verbatim>\<open>HealthStatus\<close> to
  "Stopped" and clears the handle, in the same call and whatever the process does
  afterwards; when delivering the signal fails it returns that failure and writes
  nothing.
\<close>

theorem StopApp_contract:
  "(apps m appName = None \<longrightarrow>
      StopApp kill_err appName m = (Some (NotFound appName), m))
   \<and> (apps m appName = Some app
        \<and> (\<not> Running app \<or> Cmd app = None \<or> map_option Process (Cmd app) = Some None) \<longrightarrow>
      StopApp kill_err appName m = (Some (NotRunning appName), m))
   \<and> (apps m appName = Some app \<and> Running app \<and> Cmd app = Some c \<and> Process c = Some pid \<longrightarrow>
      StopApp None appName m =
        (None, m\<lparr>apps := (apps m)(appName \<mapsto>
                  app\<lparr>Running := False, HealthStatus := ''Stopped'', Cmd := None\<rparr>)\<rparr>)
      \<and> StopApp (Some e) appName m = (Some (KillFailure appName e), m))"
  by (auto simp add: StopApp_def Let_def split: option.splits)

theorem StopApp_contract_witness:
  "StopApp None ''Nope'' mgr0 = (Some (NotFound ''Nope''), mgr0)
   \<and> StopApp None ''Echo'' mgr0 = (Some (NotRunning ''Echo''), mgr0)
   \<and> fst (StopApp None ''Echo'' mgr1) = None
   \<and> apps mgr2 ''Echo'' = Some ((new_state echo_cfg)\<lparr>HealthStatus := ''Stopped''\<rparr>)
   \<and> StopApp (Some ''os: process already finished'') ''Echo'' mgr1
       = (Some (KillFailure ''Echo'' ''os: process already finished''), mgr1)"
proof -
  have a: "StopApp None ''Nope'' mgr0 = (Some (NotFound ''Nope''), mgr0)"
    using StopApp_contract [where m = mgr0 and appName = "''Nope''" and kill_err = None]
      mgr0_Nope by simp
  have b: "StopApp None ''Echo'' mgr0 = (Some (NotRunning ''Echo''), mgr0)"
    using StopApp_contract [where m = mgr0 and appName = "''Echo''" and kill_err = None
      and app = "new_state echo_cfg"] mgr0_Echo by (simp add: new_state_def)
  have c: "StopApp None ''Echo'' mgr1 = (None, mgr2)
      \<and> StopApp (Some ''os: process already finished'') ''Echo'' mgr1
       = (Some (KillFailure ''Echo'' ''os: process already finished''), mgr1)"
    using StopApp_contract [where m = mgr1 and appName = "''Echo''"
      and app = "(new_state echo_cfg)\<lparr>Cmd := Some cmd1, Running := True\<rparr>"
      and c = cmd1 and pid = 4242 and e = "''os: process already finished''"]
      mgr1_Echo StopApp_mgr1 by (simp add: new_state_def cmd1_def)
  show ?thesis using a b c mgr2_Echo by simp
qed

text \<open>
  The claim without the condition on the signal fails: on a known, running app with a
  live handle, a \<^verbatim>\<open>Kill\<close> that returns an error (the process has already finished
  and its waiter has not yet taken the lock) leaves \<^verbatim>\<open>Running\<close> true and the handle
  in place.
\<close>

theorem StopApp_kill_failure_counterexample:
  "apps mgr1 ''Echo'' \<noteq> None
   \<and> map_option Running (apps mgr1 ''Echo'') = Some True
   \<and> map_option Cmd (apps mgr1 ''Echo'') = Some (Some \<lparr>ptr = 1, Process = Some 4242\<rparr>)
   \<and> fst (StopApp (Some ''os: process already finished'') ''Echo'' mgr1)
       = Some (KillFailure ''Echo'' ''os: process already finished'')
   \<and> map_option Running
        (apps (snd (StopApp (Some ''os: process already finished'') ''Echo'' mgr1)) ''Echo'')
       = Some True
   \<and> map_option Cmd
        (apps (snd (StopApp (Some ''os: process already finished'') ''Echo'' mgr1)) ''Echo'')
       = Some (Some \<lparr>ptr = 1, Process = Some 4242\<rparr>)"
  by (simp add: StopApp_def Let_def mgr1_Echo new_state_def cmd1_def)

section \<open>Failing calls write nothing\<close>

lemma StartApp_error_cases:
  "StartApp env appName m = (Some e, m', ts) \<Longrightarrow>
     e = NotFound appName \<or> e = AlreadyRunning appName
     \<or> (\<exists>x. e = StdoutPipeFailure appName x) \<or> (\<exists>x. e = StderrPipeFailure appName x)
     \<or> (\<exists>x. e = StartFailure appName x)"
  by (auto simp add: StartApp_def Let_def split: option.splits sum.splits if_splits)

lemma StopApp_error_cases:
  "StopApp kill_err appName m = (Some e, m') \<Longrightarrow>
     e = NotFound appName \<or> e = NotRunning appName \<or> (\<exists>x. e = KillFailure appName x)"
  by (auto simp add: StopApp_def Let_def split: option.splits sum.splits if_splits)

text \<open>
  Claim C6, as the code has it.  A call of \<^verbatim>\<open>StartApp\<close> or \<^verbatim>\<open>StopApp\<close> that
  returns an error (NotFound, AlreadyRunning, NotRunning, a pipe or spawn failure, a
  kill failure: by the two lemmas above there is no other) returns the manager it was
  given, every field of every record untouched, and spawns no task.  So \<^verbatim>\<open>Running\<close>
  is after a failed \<^verbatim>\<open>StartApp\<close> what it was before: false when the call failed at
  the pipes or at the spawn, which is only tried on a record that is not running, and
  true when it failed with AlreadyRunning.
\<close>

theorem failed_call_changes_nothing:
  "(StartApp env appName m = (Some e, m', ts) \<longrightarrow> m' = m \<and> ts = [])
   \<and> (StopApp kill_err appName m = (Some e, m') \<longrightarrow> m' = m)
   \<and> (StartApp env appName m = (Some e, m', ts) \<and> e \<noteq> NotFound appName
        \<and> e \<noteq> AlreadyRunning appName \<longrightarrow>
      map_option Running (apps m' appName) = Some False)
   \<and> (StartApp env appName m = (Some (AlreadyRunning appName), m', ts) \<longrightarrow>
      map_option Running (apps m' appName) = Some True)
   \<and> (StartApp env appName m = (Some (NotFound appName), m', ts) \<longrightarrow>
      apps m' appName = None)"
  by (auto simp add: StartApp_def StopApp_def Let_def split: option.splits sum.splits if_splits)

lemma StartApp_already_running:
  "StartApp (spawn_ok 2 4243) ''Echo'' mgr1 = (Some (AlreadyRunning ''Echo''), mgr1, [])"
  by (simp add: StartApp_def mgr1_Echo new_state_def)

lemma StartApp_unknown:
  "StartApp (spawn_ok 1 4242) ''Nope'' mgr0 = (Some (NotFound ''Nope''), mgr0, [])"
  by (simp add: StartApp_def mgr0_Nope)

theorem failed_call_changes_nothing_witness:
  "StartApp spawn_fail ''Echo'' mgr0
     = (Some (StartFailure ''Echo'' ''exec: no such file or directory''), mgr0, [])
   \<and> StopApp (Some ''os: process already finished'') ''Echo'' mgr1
     = (Some (KillFailure ''Echo'' ''os: process already finished''), mgr1)
   \<and> map_option Running (apps mgr0 ''Echo'') = Some False
   \<and> StartApp (spawn_ok 2 4243) ''Echo'' mgr1 = (Some (AlreadyRunning ''Echo''), mgr1, [])
   \<and> map_option Running (apps mgr1 ''Echo'') = Some True
   \<and> StartApp (spawn_ok 1 4242) ''Nope'' mgr0 = (Some (NotFound ''Nope''), mgr0, [])
   \<and> apps mgr0 ''Nope'' = None"
proof -
  have a: "map_option Running (apps mgr0 ''Echo'') = Some False"
    using failed_call_changes_nothing [where env = spawn_fail and appName = "''Echo''"
        and m = mgr0 and m' = mgr0 and ts = "[]" and kill_err = None
        and e = "StartFailure ''Echo'' ''exec: no such file or directory''"]
      StartApp_spawn_fail
    by simp
  have b: "snd (StopApp (Some ''os: process already finished'') ''Echo'' mgr1) = mgr1"
    using failed_call_changes_nothing [where kill_err = "Some ''os: process already finished''"
        and appName = "''Echo''" and m = mgr1
        and m' = "snd (StopApp (Some ''os: process already finished'') ''Echo'' mgr1)"
        and env = spawn_fail and ts = "[]"
        and e = "KillFailure ''Echo'' ''os: process already finished''"]
      StopApp_kill_fail
    by simp
  have c: "map_option Running (apps mgr1 ''Echo'') = Some True"
    using failed_call_changes_nothing [where env = "spawn_ok 2 4243" and appName = "''Echo''"
        and m = mgr1 and m' = mgr1 and ts = "[]" and kill_err = None
        and e = "AlreadyRunning ''Echo''"]
      StartApp_already_running
    by simp
  have d: "apps mgr0 ''Nope'' = None"
    using failed_call_changes_nothing [where env = "spawn_ok 1 4242" and appName = "''Nope''"
        and m = mgr0 and m' = mgr0 and ts = "[]" and kill_err = None
        and e = "NotFound ''Nope''"]
      StartApp_unknown
    by simp
  show ?thesis
    using a b c d StartApp_spawn_fail StopApp_kill_fail StartApp_already_running StartApp_unknown
    by blast
qed

text \<open>
  The claim's last clause read for every failed \<^verbatim>\<open>StartApp\<close> fails: on the running
  "Echo" the call fails with AlreadyRunning, and \<^verbatim>\<open>Running\<close> is true afterwards, as
  it was before.
\<close>

theorem failed_Start_running_counterexample:
  "fst (StartApp (spawn_ok 2 4243) ''Echo'' mgr1) = Some (AlreadyRunning ''Echo'')
   \<and> map_option Running (apps (fst (snd (StartApp (spawn_ok 2 4243) ''Echo'' mgr1))) ''Echo'')
       = Some True
   \<and> map_option Running (apps (fst (snd (StartApp (spawn_ok 2 4243) ''Echo'' mgr1))) ''Echo'')
       \<noteq> Some False"
  by (simp add: StartApp_def mgr1_Echo new_state_def)

section \<open>StartApp: what a successful call leaves alone\<close>

text \<open>
  Claim C10.  A successful \<^verbatim>\<open>StartApp\<close> changes three fields of the record, the
  handle, the \<^verbatim>\<open>Running\<close> flag and the output buffer, and nothing else:
  \<^verbatim>\<open>HealthStatus\<close>, \<^verbatim>\<open>HealthLastCheck\<close>, the configuration and the channel are
  as before, and so is every other record.  So an app started again after a successful
  \<^verbatim>\<open>StopApp\<close> still shows "Stopped" when \<^verbatim>\<open>StartApp\<close> returns.
\<close>

theorem StartApp_frame:
  "(StartApp env appName m = (None, m', ts) \<and> apps m appName = Some app \<longrightarrow>
      (\<exists>cmd. apps m' appName
              = Some (app\<lparr>Cmd := Some cmd, Running := True, OutputBuffer := []\<rparr>))
      \<and> map_option HealthStatus (apps m' appName) = Some (HealthStatus app)
      \<and> map_option HealthLastCheck (apps m' appName) = Some (HealthLastCheck app)
      \<and> map_option Config (apps m' appName) = Some (Config app)
      \<and> map_option OutputChan (apps m' appName) = Some (OutputChan app)
      \<and> (\<forall>n. n \<noteq> appName \<longrightarrow> apps m' n = apps m n))
   \<and> (StopApp kill_err appName m = (None, ms) \<and> StartApp env appName ms = (None, mr, ts) \<longrightarrow>
      map_option HealthStatus (apps mr appName) = Some ''Stopped'')"
  by (auto simp add: StartApp_def StopApp_def Let_def split: option.splits sum.splits if_splits)

theorem StartApp_frame_witness:
  "StartApp (spawn_ok 1 4242) ''Echo'' mgr0
     = (None, mgr1, [ReaderTask ''Echo'' cmd1, WaiterTask ''Echo'' cmd1])
   \<and> map_option HealthStatus (apps mgr1 ''Echo'') = Some ''Unknown''
   \<and> map_option HealthLastCheck (apps mgr1 ''Echo'') = Some 0
   \<and> apps mgr1 ''Web'' = apps mgr0 ''Web''
   \<and> StopApp None ''Echo'' mgr1 = (None, mgr2)
   \<and> StartApp (spawn_ok 2 4243) ''Echo'' mgr2
     = (None, mgr3, [ReaderTask ''Echo'' cmd2, WaiterTask ''Echo'' cmd2])
   \<and> map_option HealthStatus (apps mgr3 ''Echo'') = Some ''Stopped''"
proof -
  have a: "map_option HealthStatus (apps mgr1 ''Echo'') = Some ''Unknown''
      \<and> map_option HealthLastCheck (apps mgr1 ''Echo'') = Some 0
      \<and> apps mgr1 ''Web'' = apps mgr0 ''Web''"
    using StartApp_frame [where env = "spawn_ok 1 4242" and appName = "''Echo''" and m = mgr0
      and m' = mgr1 and ts = "[ReaderTask ''Echo'' cmd1, WaiterTask ''Echo'' cmd1]"
      and app = "new_state echo_cfg"] StartApp_mgr0 mgr0_Echo
    by (simp add: new_state_def)
  have b: "map_option HealthStatus (apps mgr3 ''Echo'') = Some ''Stopped''"
    using StartApp_frame [where env = "spawn_ok 2 4243" and appName = "''Echo''" and m = mgr1
      and ms = mgr2 and mr = mgr3 and kill_err = None
      and ts = "[ReaderTask ''Echo'' cmd2, WaiterTask ''Echo'' cmd2]"]
      StopApp_mgr1 StartApp_mgr2
    by simp
  show ?thesis using a b StartApp_mgr0 StopApp_mgr1 StartApp_mgr2 by simp
qed

section \<open>The exit-waiter\<close>

lemma update_app_Some:
  "apps m appName = Some app \<Longrightarrow>
     update_app appName f m = m\<lparr>apps := (apps m)(appName \<mapsto> f app)\<rparr>"
  by (simp add: update_app_def)

lemma update_app_id:
  "apps m appName = Some app \<Longrightarrow> f app = app \<Longrightarrow> update_app appName f m = m"
  by (simp add: update_app_def fun_upd_idem)

text \<open>
  Claim C3.  When the exit-waiter of a launch sees its process end and the record's
  handle is still the one it tracks, it sets \<^verbatim>\<open>Running\<close> to false, clears the handle
  and sets \<^verbatim>\<open>HealthStatus\<close> to "Stopped" when \<^verbatim>\<open>Wait\<close> returned no error and to
  "Exited: " followed by the error otherwise.  When the handle is another one, cleared
  by a \<^verbatim>\<open>StopApp\<close> or replaced by a later \<^verbatim>\<open>StartApp\<close>, it writes nothing.  In
  particular after a \<^verbatim>\<open>StopApp\<close> and a new \<^verbatim>\<open>StartApp\<close> the waiter of the old launch
  leaves the record running.  (The new \<^verbatim>\<open>Cmd\<close> is allocated while the old waiter still
  holds the old one, so the two addresses differ: the hypothesis on \<open>new_ptr\<close>.)
\<close>

theorem exit_waiter_contract:
  "(apps m appName = Some app \<and> same_cmd (Cmd app) cmd \<longrightarrow>
      apps (exit_waiter appName cmd None m) appName
        = Some (app\<lparr>Running := False, Cmd := None, HealthStatus := ''Stopped''\<rparr>)
      \<and> apps (exit_waiter appName cmd (Some e) m) appName
        = Some (app\<lparr>Running := False, Cmd := None, HealthStatus := ''Exited: '' @ e\<rparr>))
   \<and> (apps m appName = Some app \<and> \<not> same_cmd (Cmd app) cmd \<longrightarrow>
      exit_waiter appName cmd wait_err m = m)
   \<and> (apps m appName = Some app \<and> Cmd app = None \<longrightarrow>
      exit_waiter appName cmd wait_err m = m)
   \<and> (apps m appName = Some app \<and> Cmd app = Some c \<and> ptr c \<noteq> ptr cmd \<longrightarrow>
      exit_waiter appName cmd wait_err m = m)
   \<and> (StopApp kill_err appName m = (None, ms) \<and> StartApp env appName ms = (None, mr, ts)
        \<and> new_ptr env \<noteq> ptr cmd \<longrightarrow>
      exit_waiter appName cmd wait_err mr = mr
      \<and> map_option Running (apps (exit_waiter appName cmd wait_err mr) appName) = Some True)"
proof -
  have stale: "exit_waiter appName cmd wait_err m = m"
    if "apps m appName = Some app" "\<not> same_cmd (Cmd app) cmd" for m app
    using that by (simp add: exit_waiter_def update_app_id exit_waiter_write_def)
  have live: "apps (exit_waiter appName cmd None m) appName
        = Some (app\<lparr>Running := False, Cmd := None, HealthStatus := ''Stopped''\<rparr>)
      \<and> apps (exit_waiter appName cmd (Some e) m) appName
        = Some (app\<lparr>Running := False, Cmd := None, HealthStatus := ''Exited: '' @ e\<rparr>)"
    if "apps m appName = Some app" "same_cmd (Cmd app) cmd"
    using that by (simp add: exit_waiter_def update_app_Some exit_waiter_write_def Let_def)
  have restart: "exit_waiter appName cmd wait_err mr = mr
      \<and> map_option Running (apps (exit_waiter appName cmd wait_err mr) appName) = Some True"
    if h: "StopApp kill_err appName m = (None, ms)" "StartApp env appName ms = (None, mr, ts)"
      "new_ptr env \<noteq> ptr cmd"
  proof -
    from h(2) obtain appr where ar: "apps mr appName = Some appr" "Running appr"
        "same_cmd (Cmd appr) cmd \<longleftrightarrow> new_ptr env = ptr cmd"
      by (auto simp add: StartApp_def Let_def same_cmd_def
          split: option.splits sum.splits if_splits)
    with h(3) have "exit_waiter appName cmd wait_err mr = mr" by (simp add: stale)
    with ar show ?thesis by simp
  qed
  show ?thesis
    using stale live restart by (auto simp add: same_cmd_def)
qed

theorem exit_waiter_contract_witness:
  "same_cmd (Some cmd1) cmd1
   \<and> map_option HealthStatus (apps (exit_waiter ''Echo'' cmd1 None mgr1) ''Echo'')
       = Some ''Stopped''
   \<and> map_option HealthStatus
        (apps (exit_waiter ''Echo'' cmd1 (Some ''exit status 1'') mgr1) ''Echo'')
       = Some ''Exited: exit status 1''
   \<and> map_option Running (apps (exit_waiter ''Echo'' cmd1 None mgr1) ''Echo'') = Some False
   \<and> map_option Cmd (apps (exit_waiter ''Echo'' cmd1 None mgr1) ''Echo'') = Some None
   \<and> exit_waiter ''Echo'' cmd1 None mgr2 = mgr2
   \<and> StopApp None ''Echo'' mgr1 = (None, mgr2)
   \<and> StartApp (spawn_ok 2 4243) ''Echo'' mgr2
     = (None, mgr3, [ReaderTask ''Echo'' cmd2, WaiterTask ''Echo'' cmd2])
   \<and> exit_waiter ''Echo'' cmd1 None mgr3 = mgr3
   \<and> map_option Running (apps (exit_waiter ''Echo'' cmd1 None mgr3) ''Echo'') = Some True"
proof -
  have a: "map_option HealthStatus (apps (exit_waiter ''Echo'' cmd1 None mgr1) ''Echo'')
       = Some ''Stopped''
     \<and> map_option HealthStatus
        (apps (exit_waiter ''Echo'' cmd1 (Some ''exit status 1'') mgr1) ''Echo'')
       = Some ''Exited: exit status 1''
     \<and> map_option Running (apps (exit_waiter ''Echo'' cmd1 None mgr1) ''Echo'') = Some False
     \<and> map_option Cmd (apps (exit_waiter ''Echo'' cmd1 None mgr1) ''Echo'') = Some None"
    using exit_waiter_contract [where m = mgr1 and appName = "''Echo''" and cmd = cmd1
      and app = "(new_state echo_cfg)\<lparr>Cmd := Some cmd1, Running := True\<rparr>"
      and e = "''exit status 1''"] mgr1_Echo
    by (simp add: same_cmd_def)
  have b: "exit_waiter ''Echo'' cmd1 None mgr2 = mgr2"
    using exit_waiter_contract [where m = mgr2 and appName = "''Echo''" and cmd = cmd1
      and app = "(new_state echo_cfg)\<lparr>HealthStatus := ''Stopped''\<rparr>" and wait_err = None]
      mgr2_Echo
    by (simp add: new_state_def)
  have c: "exit_waiter ''Echo'' cmd1 None mgr3 = mgr3
     \<and> map_option Running (apps (exit_waiter ''Echo'' cmd1 None mgr3) ''Echo'') = Some True"
    using exit_waiter_contract [where m = mgr1 and appName = "''Echo''" and cmd = cmd1
      and kill_err = None and ms = mgr2 and env = "spawn_ok 2 4243" and mr = mgr3
      and ts = "[ReaderTask ''Echo'' cmd2, WaiterTask ''Echo'' cmd2]" and wait_err = None
      and app = "(new_state echo_cfg)\<lparr>Cmd := Some cmd1, Running := True\<rparr>"
      and e = "[]" and c = cmd1]
      StopApp_mgr1 StartApp_mgr2
    by (auto simp add: spawn_ok_def cmd1_def)
  show ?thesis using a b c StopApp_mgr1 StartApp_mgr2 by (auto simp add: same_cmd_def)
qed

lemma mgrW_Web:
  "apps mgrW ''Web'' = Some ((new_state web_cfg)\<lparr>Cmd := Some cmdW, Running := True\<rparr>)"
  by (simp add: Let_def mgrW_def StartApp_def mgr0_Web spawn_ok_def new_state_def cmdW_def)

lemma mgrW_Echo: "apps mgrW ''Echo'' = Some (new_state echo_cfg)"
  by (simp add: Let_def mgrW_def StartApp_def mgr0_Web mgr0_Echo spawn_ok_def)

section \<open>The health probe\<close>

subsection \<open>The decimal rendering of the status code\<close>

lemma digit_table:
  "d < 10 \<Longrightarrow> digit_val (''0123456789'' ! d) = d \<and> is_digit (''0123456789'' ! d)
     \<and> (''0123456789'' ! d = CHR ''0'' \<longleftrightarrow> d = 0) \<and> ''0123456789'' ! d \<noteq> CHR ''-''"
proof -
  assume "d < 10"
  then have "d = 0 \<or> d = 1 \<or> d = 2 \<or> d = 3 \<or> d = 4 \<or> d = 5 \<or> d = 6 \<or> d = 7 \<or> d = 8 \<or> d = 9"
    by arith
  then show ?thesis
    by (elim disjE) (simp_all add: digit_val_def is_digit_def)
qed

lemma nat_of_decimal_snoc:
  "nat_of_decimal (ds @ [c]) = 10 * nat_of_decimal ds + digit_val c"
  by (simp add: nat_of_decimal_def)

lemma nat_of_decimal_string_of_nat: "nat_of_decimal (string_of_nat n) = n"
proof (induction n rule: string_of_nat.induct)
  case (1 n)
  show ?case
  proof (cases "n < 10")
    case True
    then show ?thesis
      by (subst string_of_nat.simps) (simp add: nat_of_decimal_def digit_table)
  next
    case False
    then have "string_of_nat n = string_of_nat (n div 10) @ [''0123456789'' ! (n mod 10)]"
      by (subst string_of_nat.simps) simp
    then show ?thesis
      using "1.IH" [OF False] by (simp add: nat_of_decimal_snoc digit_table)
  qed
qed

lemma string_of_nat_not_Nil: "string_of_nat n \<noteq> []"
  by (subst string_of_nat.simps) simp

lemma string_of_nat_digits: "list_all is_digit (string_of_nat n)"
proof (induction n rule: string_of_nat.induct)
  case (1 n)
  show ?case
  proof (cases "n < 10")
    case True
    then show ?thesis by (subst string_of_nat.simps) (simp add: digit_table)
  next
    case False
    then have "string_of_nat n = string_of_nat (n div 10) @ [''0123456789'' ! (n mod 10)]"
      by (subst string_of_nat.simps) simp
    then show ?thesis using "1.IH" [OF False] by (simp add: digit_table)
  qed
qed

lemma string_of_nat_hd: "0 < n \<Longrightarrow> hd (string_of_nat n) \<noteq> CHR ''0''"
proof (induction n rule: string_of_nat.induct)
  case (1 n)
  show ?case
  proof (cases "n < 10")
    case True
    then have e: "string_of_nat n = [''0123456789'' ! n]"
      by (subst string_of_nat.simps) simp
    from "1.prems" have "n \<noteq> 0" by simp
    with digit_table [OF True] have "''0123456789'' ! n \<noteq> CHR ''0''" by blast
    then show ?thesis unfolding e by (simp only: list.sel not_False_eq_True)
  next
    case False
    then have e: "string_of_nat n = string_of_nat (n div 10) @ [''0123456789'' ! (n mod 10)]"
      by (subst string_of_nat.simps) simp
    from False have "0 < n div 10" by simp
    from "1.IH" [OF False this] show ?thesis
      unfolding e by (simp add: string_of_nat_not_Nil)
  qed
qed

lemma string_of_nat_zero: "string_of_nat 0 = ''0''"
  by (subst string_of_nat.simps) simp

lemma string_of_nat_hd_not_minus: "hd (string_of_nat n) \<noteq> CHR ''-''"
proof -
  have "is_digit (hd (string_of_nat n))"
    using string_of_nat_digits [of n] string_of_nat_not_Nil [of n]
    by (cases "string_of_nat n") simp_all
  then show ?thesis by (auto simp add: is_digit_def)
qed

lemma canonical_string_of_nat: "canonical_nat (string_of_nat n)"
proof (cases "n = 0")
  case True
  then show ?thesis by (simp add: string_of_nat_zero canonical_nat_def is_digit_def)
next
  case False
  then show ?thesis
    by (simp add: canonical_nat_def string_of_nat_not_Nil string_of_nat_digits string_of_nat_hd)
qed

lemma string_of_nat_eq_zero: "string_of_nat n = ''0'' \<Longrightarrow> n = 0"
  using nat_of_decimal_string_of_nat [of n] by (simp add: nat_of_decimal_def digit_val_def)

lemma int_of_decimal_string_of_int: "int_of_decimal (string_of_int i) = i"
proof (cases "i < 0")
  case True
  then show ?thesis
    by (simp add: string_of_int_def int_of_decimal_def nat_of_decimal_string_of_nat)
next
  case False
  obtain c ds where s: "string_of_nat (nat i) = c # ds"
    using string_of_nat_not_Nil [of "nat i"] by (cases "string_of_nat (nat i)") auto
  with string_of_nat_hd_not_minus [of "nat i"] have "c \<noteq> CHR ''-''" by simp
  with False s nat_of_decimal_string_of_nat [of "nat i"] show ?thesis
    by (simp add: string_of_int_def int_of_decimal_def)
qed

lemma canonical_string_of_int: "canonical_decimal (string_of_int i)"
proof (cases "i < 0")
  case True
  then have "nat (- i) \<noteq> 0" by simp
  with string_of_nat_eq_zero [of "nat (- i)"] have "string_of_nat (nat (- i)) \<noteq> ''0''" by blast
  with True show ?thesis
    by (simp add: string_of_int_def canonical_decimal_def canonical_string_of_nat)
next
  case False
  obtain c ds where s: "string_of_nat (nat i) = c # ds"
    using string_of_nat_not_Nil [of "nat i"] by (cases "string_of_nat (nat i)") auto
  with string_of_nat_hd_not_minus [of "nat i"] have "c \<noteq> CHR ''-''" by simp
  with False s canonical_string_of_nat [of "nat i"] show ?thesis
    by (simp add: string_of_int_def canonical_decimal_def)
qed

lemma is_digit_table: "is_digit c \<Longrightarrow> digit_val c < 10 \<and> ''0123456789'' ! digit_val c = c"
proof -
  assume d: "is_digit c"
  define k where "k = digit_val c"
  with d have k: "k < 10" "(of_char c :: nat) = 48 + k"
    by (auto simp add: is_digit_def digit_val_def)
  from k(1) have "k = 0 \<or> k = 1 \<or> k = 2 \<or> k = 3 \<or> k = 4 \<or> k = 5 \<or> k = 6 \<or> k = 7 \<or> k = 8 \<or> k = 9"
    by arith
  then have "(of_char (''0123456789'' ! k) :: nat) = 48 + k"
    by (elim disjE) simp_all
  with k(2) have "(of_char (''0123456789'' ! k) :: nat) = of_char c" by simp
  then have "''0123456789'' ! k = c" by (simp only: of_char_eq_iff)
  with k(1) show ?thesis by (simp add: k_def)
qed

lemma string_of_nat_unique: "canonical_nat ds \<Longrightarrow> string_of_nat (nat_of_decimal ds) = ds"
proof (induction ds rule: rev_induct)
  case Nil
  then show ?case by (simp add: canonical_nat_def)
next
  case (snoc c xs)
  from snoc.prems have c: "is_digit c" by (simp add: canonical_nat_def)
  note t = is_digit_table [OF c]
  show ?case
  proof (cases "xs = []")
    case True
    with t show ?thesis
      by (subst string_of_nat.simps) (simp add: nat_of_decimal_def)
  next
    case False
    with snoc.prems have cx: "canonical_nat xs" "hd xs \<noteq> CHR ''0''"
      by (auto simp add: canonical_nat_def)
    from snoc.IH [OF cx(1)] have ih: "string_of_nat (nat_of_decimal xs) = xs" .
    have "nat_of_decimal xs \<noteq> 0"
    proof
      assume "nat_of_decimal xs = 0"
      with ih have "xs = ''0''" by (simp add: string_of_nat_zero)
      with cx(2) show False by simp
    qed
    then have big: "\<not> nat_of_decimal (xs @ [c]) < 10"
      by (simp add: nat_of_decimal_snoc)
    have dv: "nat_of_decimal (xs @ [c]) div 10 = nat_of_decimal xs"
      "nat_of_decimal (xs @ [c]) mod 10 = digit_val c"
      using t by (simp_all add: nat_of_decimal_snoc)
    show ?thesis
      using big by (subst string_of_nat.simps) (simp add: dv ih t)
  qed
qed

lemma string_of_int_unique:
  "canonical_decimal s \<Longrightarrow> string_of_int (int_of_decimal s) = s"
proof (cases s)
  case Nil
  assume "canonical_decimal s"
  with Nil show ?thesis by (simp add: canonical_decimal_def)
next
  case (Cons c ds)
  assume can: "canonical_decimal s"
  show ?thesis
  proof (cases "c = CHR ''-''")
    case True
    with can Cons have cd: "canonical_nat ds" "ds \<noteq> ''0''" by (simp_all add: canonical_decimal_def)
    have "nat_of_decimal ds \<noteq> 0"
    proof
      assume "nat_of_decimal ds = 0"
      with string_of_nat_unique [OF cd(1)] have "ds = ''0''" by (simp add: string_of_nat_zero)
      with cd(2) show False by simp
    qed
    with True Cons string_of_nat_unique [OF cd(1)] show ?thesis
      by (simp add: int_of_decimal_def string_of_int_def)
  next
    case False
    with can Cons have "canonical_nat s" by (simp add: canonical_decimal_def)
    from string_of_nat_unique [OF this] False Cons show ?thesis
      by (simp add: int_of_decimal_def string_of_int_def)
  qed
qed

lemma string_of_int_404: "string_of_int 404 = ''404''"
  by code_simp

lemma string_of_int_minus_1: "string_of_int (- 1) = ''-1''"
  by code_simp

subsection \<open>The classification\<close>

lemma string_of_int_503: "string_of_int 503 = ''503''"
  by code_simp

text \<open>
  Claim C4.  One call of \<^verbatim>\<open>CheckAppHealth\<close> classifies as follows: an empty health
  URL gives "N/A" and no GET is issued; a GET answered with status 200 gives "Healthy";
  a GET answered with any other status code gives "Degraded (" followed by the code in
  decimal and ")"; a GET that returns an error gives "Error: " followed by the error's
  message.  In each of these cases \<^verbatim>\<open>HealthLastCheck\<close> becomes the time read when the
  result is written, and no other field of the record changes.  The code in decimal is
  the one numeral without leading zero that denotes the status code: it is such a
  numeral, reading it gives the code back, and no other such numeral does.
\<close>

theorem CheckAppHealth_classification:
  "(HealthURL (Config app) = [] \<longrightarrow>
      HealthStatus (fst (CheckAppHealth env app)) = ''N/A''
      \<and> snd (CheckAppHealth env app) = [])
   \<and> (HealthURL (Config app) \<noteq> [] \<and> http_get env (HealthURL (Config app)) = HttpResponse 200 \<longrightarrow>
      HealthStatus (fst (CheckAppHealth env app)) = ''Healthy'')
   \<and> (HealthURL (Config app) \<noteq> [] \<and> http_get env (HealthURL (Config app)) = HttpResponse code
        \<and> code \<noteq> 200 \<longrightarrow>
      HealthStatus (fst (CheckAppHealth env app)) = ''Degraded ('' @ string_of_int code @ '')''
      \<and> canonical_decimal (string_of_int code)
      \<and> int_of_decimal (string_of_int code) = code
      \<and> (canonical_decimal s \<and> int_of_decimal s = code \<longrightarrow> s = string_of_int code))
   \<and> (HealthURL (Config app) \<noteq> [] \<and> http_get env (HealthURL (Config app)) = HttpError e \<longrightarrow>
      HealthStatus (fst (CheckAppHealth env app)) = ''Error: '' @ e
      \<and> take 6 (HealthStatus (fst (CheckAppHealth env app))) = ''Error:'')
   \<and> HealthLastCheck (fst (CheckAppHealth env app)) = now env
   \<and> fst (CheckAppHealth env app)
       = app\<lparr>HealthStatus := HealthStatus (fst (CheckAppHealth env app)),
             HealthLastCheck := now env\<rparr>"
  using string_of_int_unique [of s]
  by (auto simp add: CheckAppHealth_def Let_def canonical_string_of_int
      int_of_decimal_string_of_int split: http_result.splits)

lemma decimal_404: "canonical_decimal ''404'' \<and> int_of_decimal ''404'' = 404"
  by (simp add: canonical_decimal_def canonical_nat_def is_digit_def int_of_decimal_def
      nat_of_decimal_def digit_val_def)

theorem CheckAppHealth_classification_witness:
  "HealthStatus (fst (CheckAppHealth (probe_world (HttpResponse 200) 17) (new_state echo_cfg))) = ''N/A''
   \<and> HealthLastCheck (fst (CheckAppHealth (probe_world (HttpResponse 200) 17) (new_state echo_cfg))) = 17
   \<and> HealthStatus (fst (CheckAppHealth (probe_world (HttpResponse 200) 18) (new_state web_cfg))) = ''Healthy''
   \<and> HealthLastCheck (fst (CheckAppHealth (probe_world (HttpResponse 200) 18) (new_state web_cfg))) = 18
   \<and> HealthStatus (fst (CheckAppHealth (probe_world (HttpResponse 503) 19) (new_state web_cfg)))
       = ''Degraded (503)''
   \<and> HealthLastCheck (fst (CheckAppHealth (probe_world (HttpResponse 503) 19) (new_state web_cfg))) = 19
   \<and> HealthStatus (fst (CheckAppHealth (probe_world (HttpError ''connection refused'') 20)
        (new_state web_cfg))) = ''Error: connection refused''
   \<and> HealthLastCheck (fst (CheckAppHealth (probe_world (HttpError ''connection refused'') 20)
        (new_state web_cfg))) = 20
   \<and> canonical_decimal ''404'' \<and> int_of_decimal ''404'' = 404
   \<and> HealthStatus (fst (CheckAppHealth (probe_world (HttpResponse 404) 21) (new_state web_cfg)))
       = ''Degraded (404)''
   \<and> HealthStatus (fst (CheckAppHealth (probe_world (HttpResponse (- 1)) 22) (new_state web_cfg)))
       = ''Degraded (-1)''"
proof -
  have a: "HealthStatus (fst (CheckAppHealth (probe_world (HttpResponse 200) 17) (new_state echo_cfg))) = ''N/A''
   \<and> HealthLastCheck (fst (CheckAppHealth (probe_world (HttpResponse 200) 17) (new_state echo_cfg))) = 17
   \<and> HealthStatus (fst (CheckAppHealth (probe_world (HttpResponse 200) 18) (new_state web_cfg))) = ''Healthy''
   \<and> HealthLastCheck (fst (CheckAppHealth (probe_world (HttpResponse 200) 18) (new_state web_cfg))) = 18
   \<and> HealthStatus (fst (CheckAppHealth (probe_world (HttpResponse 503) 19) (new_state web_cfg)))
       = ''Degraded (503)''
   \<and> HealthLastCheck (fst (CheckAppHealth (probe_world (HttpResponse 503) 19) (new_state web_cfg))) = 19
   \<and> HealthStatus (fst (CheckAppHealth (probe_world (HttpError ''connection refused'') 20)
        (new_state web_cfg))) = ''Error: connection refused''
   \<and> HealthLastCheck (fst (CheckAppHealth (probe_world (HttpError ''connection refused'') 20)
        (new_state web_cfg))) = 20"
    using
      CheckAppHealth_classification [where app = "new_state echo_cfg"
        and env = "probe_world (HttpResponse 200) 17" and code = 200 and e = "[]" and s = "[]"]
      CheckAppHealth_classification [where app = "new_state web_cfg"
        and env = "probe_world (HttpResponse 200) 18" and code = 200 and e = "[]" and s = "[]"]
      CheckAppHealth_classification [where app = "new_state web_cfg"
        and env = "probe_world (HttpResponse 503) 19" and code = 503 and e = "[]" and s = "[]"]
      CheckAppHealth_classification [where app = "new_state web_cfg"
        and env = "probe_world (HttpError ''connection refused'') 20" and code = 0
        and e = "''connection refused''" and s = "[]"]
    by (simp add: probe_world_def new_state_def echo_cfg_def web_cfg_def string_of_int_503)
  have u: "HealthURL (Config (new_state web_cfg)) \<noteq> []"
    by (simp add: new_state_def web_cfg_def)
  have g: "http_get (probe_world (HttpResponse 404) 21) (HealthURL (Config (new_state web_cfg)))
      = HttpResponse 404"
    by (simp add: probe_world_def)
  have n: "(404 :: int) \<noteq> 200" by simp
  note t = CheckAppHealth_classification [where app = "new_state web_cfg"
        and env = "probe_world (HttpResponse 404) 21" and code = 404 and e = "[]"
        and s = "''404''"]
  from t u g n decimal_404 have
    "HealthStatus (fst (CheckAppHealth (probe_world (HttpResponse 404) 21) (new_state web_cfg)))
       = ''Degraded ('' @ string_of_int 404 @ '')''
     \<and> ''404'' = string_of_int 404"
    by blast
  then have b: "HealthStatus (fst (CheckAppHealth (probe_world (HttpResponse 404) 21)
      (new_state web_cfg))) = ''Degraded (404)''"
    by simp
  have c: "HealthStatus (fst (CheckAppHealth (probe_world (HttpResponse (- 1)) 22)
      (new_state web_cfg))) = ''Degraded (-1)''"
    using CheckAppHealth_classification [where app = "new_state web_cfg"
        and env = "probe_world (HttpResponse (- 1)) 22" and code = "- 1" and e = "[]"
        and s = "[]"] u
    by (simp add: probe_world_def string_of_int_minus_1)
  show ?thesis using a b c decimal_404 by blast
qed

section \<open>NewManager and repeated names\<close>

lemma find_append_last:
  "find P (xs @ [y]) = (case find P xs of None \<Rightarrow> (if P y then Some y else None) | Some x \<Rightarrow> Some x)"
  by (induction xs) simp_all

lemma NewManager_loop_find:
  "NewManager_loop cfgs a n =
     (case find (\<lambda>c. Name c = n) (rev cfgs) of None \<Rightarrow> a n | Some c \<Rightarrow> Some (new_state c))"
proof (induction cfgs arbitrary: a)
  case Nil
  then show ?case by simp
next
  case (Cons cfg cfgs)
  show ?case
    by (simp add: Cons.IH find_append_last split: option.splits)
qed

text \<open>
  Claim C9, as the code has it.  \<^verbatim>\<open>NewManager\<close> has no error result and accepts every
  configuration list.  The record stored under a name is the fresh record of the last
  configuration in the list that carries this name; earlier configurations with the same
  name are overwritten.
\<close>

theorem NewManager_keeps_last:
  "apps (NewManager configs) n = map_option new_state (find (\<lambda>c. Name c = n) (rev configs))"
  by (simp add: NewManager_def NewManager_loop_find split: option.splits)

text \<open>
  Two different configurations named "Echo": the construction returns a manager, whose
  only record is built from the second one, exactly as if the first had not been given.
\<close>

theorem NewManager_duplicate_counterexample:
  "Name dup_first = Name dup_second
   \<and> dup_first \<noteq> dup_second
   \<and> apps (NewManager [dup_first, dup_second]) ''Echo'' = Some (new_state dup_second)
   \<and> apps (NewManager [dup_first, dup_second]) = apps (NewManager [dup_second])"
  by (simp add: NewManager_def dup_first_def dup_second_def)

section \<open>The output buffer stays within its cap\<close>

lemma capture_write_length: "length (OutputBuffer (capture_write chunk app)) \<le> 4096"
proof (cases "length (OutputBuffer app @ chunk) > 4096")
  case True
  then have "OutputBuffer (capture_write chunk app)
      = drop (length (OutputBuffer app @ chunk) - 2048) (OutputBuffer app @ chunk)"
    by (simp add: capture_write_def Let_def)
  then have "length (OutputBuffer (capture_write chunk app))
      = length (OutputBuffer app @ chunk) - (length (OutputBuffer app @ chunk) - 2048)"
    by (simp only: length_drop)
  then show ?thesis by arith
next
  case False
  then show ?thesis by (simp add: capture_write_def Let_def)
qed

lemma capture_write_trim:
  "length (OutputBuffer app @ chunk) > 4096 \<Longrightarrow>
     OutputBuffer (capture_write chunk app)
       = drop (length (OutputBuffer app @ chunk) - 2048) (OutputBuffer app @ chunk)
     \<and> length (OutputBuffer (capture_write chunk app)) = 2048"
  by (simp add: capture_write_def Let_def)

lemma capture_write_keep:
  "length (OutputBuffer app @ chunk) \<le> 4096 \<Longrightarrow>
     OutputBuffer (capture_write chunk app) = OutputBuffer app @ chunk"
  by (simp add: capture_write_def Let_def)

lemma chan_send_buffer: "OutputBuffer (chan_send chunk app) = OutputBuffer app"
  by (simp add: chan_send_def)

lemma reader_step_bounded:
  assumes "apps m appName = Some app" "length (OutputBuffer app) \<le> 4096"
  shows "\<exists>app'. apps (reader_step appName chunk m) appName = Some app'
           \<and> length (OutputBuffer app') \<le> 4096"
  using assms
  by (simp add: reader_step_def update_app_def chan_send_buffer capture_write_length)

lemma reader_bounded:
  assumes "apps m appName = Some app" "length (OutputBuffer app) \<le> 4096"
  shows "\<exists>app'. apps (reader appName reads m) appName = Some app'
           \<and> length (OutputBuffer app') \<le> 4096"
  using assms
proof (induction reads arbitrary: m app)
  case Nil
  then show ?case by simp
next
  case (Cons r reads)
  obtain chunk err where r: "r = (chunk, err)" by (cases r)
  from reader_step_bounded [OF Cons.prems, of chunk]
  obtain app1 where s: "apps (reader_step appName chunk m) appName = Some app1"
      "length (OutputBuffer app1) \<le> 4096"
    by blast
  show ?case
  proof (cases err)
    case None
    with Cons.IH [OF s] r show ?thesis by (simp add: Let_def)
  next
    case (Some e)
    with s r show ?thesis by (simp add: Let_def)
  qed
qed

lemma StartApp_buffer:
  "apps (fst (snd (StartApp env appName m))) n = Some app' \<Longrightarrow>
     OutputBuffer app' = [] \<or> apps m n = Some app'"
  by (auto simp add: StartApp_def Let_def split: option.splits sum.splits if_splits)

lemma StopApp_buffer:
  "apps (snd (StopApp kill_err appName m)) n = Some app' \<Longrightarrow>
     \<exists>app. apps m n = Some app \<and> OutputBuffer app' = OutputBuffer app"
  by (auto simp add: StopApp_def Let_def split: option.splits sum.splits if_splits)

lemma update_app_lookup:
  "apps (update_app appName f m) n = Some app' \<Longrightarrow>
     \<exists>app. apps m n = Some app \<and> (app' = app \<or> (n = appName \<and> app' = f app))"
  by (auto simp add: update_app_def split: option.splits if_splits)

lemma reader_step_buffer:
  "apps (reader_step appName chunk m) n = Some app' \<Longrightarrow>
     length (OutputBuffer app') \<le> 4096 \<or> apps m n = Some app'"
proof (cases "length chunk > 0")
  case False
  assume "apps (reader_step appName chunk m) n = Some app'"
  with False show ?thesis by (simp add: reader_step_def)
next
  case True
  assume "apps (reader_step appName chunk m) n = Some app'"
  with True have
    "apps (update_app appName (chan_send chunk) (update_app appName (capture_write chunk) m)) n
       = Some app'"
    by (simp add: reader_step_def)
  from update_app_lookup [OF this] obtain app1 where
    a1: "apps (update_app appName (capture_write chunk) m) n = Some app1"
      "OutputBuffer app' = OutputBuffer app1" "n \<noteq> appName \<longrightarrow> app' = app1"
    by (auto simp add: chan_send_buffer)
  from update_app_lookup [OF a1(1)] obtain app where
    a: "apps m n = Some app" "app1 = app \<or> (n = appName \<and> app1 = capture_write chunk app)"
    by blast
  show ?thesis
  proof (cases "n = appName")
    case True
    with a(1) have "apps (update_app appName (capture_write chunk) m) n
        = Some (capture_write chunk app)"
      by (simp add: update_app_def)
    with a1 capture_write_length [of chunk app] show ?thesis by auto
  next
    case False
    with a a1 show ?thesis by auto
  qed
qed

lemma exit_waiter_buffer:
  "apps (exit_waiter appName cmd wait_err m) n = Some app' \<Longrightarrow>
     \<exists>app. apps m n = Some app \<and> OutputBuffer app' = OutputBuffer app"
  unfolding exit_waiter_def
  by (drule update_app_lookup)
     (auto simp add: exit_waiter_write_def Let_def split: option.splits if_splits)

lemma health_check_write_buffer:
  "OutputBuffer (fst (health_check_write env seen app)) = OutputBuffer app"
  by (simp add: health_check_write_def CheckAppHealth_def Let_def split: http_result.splits)

lemma health_write_buffer:
  "apps (update_app appName (\<lambda>app. fst (health_check_write env seen app)) m) n = Some app' \<Longrightarrow>
     \<exists>app. apps m n = Some app \<and> OutputBuffer app' = OutputBuffer app"
  by (drule update_app_lookup) (auto simp add: health_check_write_buffer)

lemma perform_bounded:
  assumes inv: "\<And>n app. apps m n = Some app \<Longrightarrow> length (OutputBuffer app) \<le> 4096"
    and "apps (perform a m) n = Some app'"
  shows "length (OutputBuffer app') \<le> 4096"
proof (cases a)
  case (DoStart env appName)
  with assms(2) StartApp_buffer [of env appName m n app'] inv show ?thesis by auto
next
  case (DoStop kill_err appName)
  with assms(2) StopApp_buffer [of kill_err appName m n app'] inv show ?thesis by auto
next
  case (DoRead appName chunk)
  with assms(2) reader_step_buffer [of appName chunk m n app'] inv show ?thesis by auto
next
  case (DoExit appName cmd wait_err)
  with assms(2) exit_waiter_buffer [of appName cmd wait_err m n app'] inv show ?thesis by auto
next
  case (DoHealth env seen appName)
  with assms(2) health_write_buffer [of appName env seen m n app'] inv show ?thesis by auto
qed

lemma run_bounded:
  assumes "\<And>n app. apps m n = Some app \<Longrightarrow> length (OutputBuffer app) \<le> 4096"
    and "apps (run acts m) n = Some app'"
  shows "length (OutputBuffer app') \<le> 4096"
  using assms
proof (induction acts arbitrary: m)
  case Nil
  then show ?case by simp
next
  case (Cons a acts)
  have "\<And>n app. apps (perform a m) n = Some app \<Longrightarrow> length (OutputBuffer app) \<le> 4096"
    using perform_bounded [of m a] Cons.prems(1) by blast
  from Cons.IH [OF this] Cons.prems(2) show ?case by simp
qed

lemma NewManager_buffer:
  "apps (NewManager configs) n = Some app \<Longrightarrow> OutputBuffer app = []"
  by (auto simp add: NewManager_def NewManager_loop_find new_state_def split: option.splits)

lemma run_NewManager_bounded:
  "apps (run acts (NewManager configs)) n = Some app \<Longrightarrow> length (OutputBuffer app) \<le> 4096"
proof (rule run_bounded)
  fix k appk assume "apps (NewManager configs) k = Some appk"
  from NewManager_buffer [OF this] show "length (OutputBuffer appk) \<le> 4096" by simp
qed

lemma run_mgr_out:
  "run [DoStart (spawn_ok 1 4242) ''Echo'', DoRead ''Echo'' sixty_lines]
     (NewManager [echo_cfg, web_cfg]) = mgr_out"
  by (simp add: mgr_out_def mgr1_def mgr0_def Let_def)

text \<open>
  Claim C5.  Whatever chunks the reader task appends, the output buffer never holds
  more than 4096 bytes once a write step is complete.  This holds after any schedule
  of steps from the construction on, so also when the writes of several readers, the
  resets of \<^verbatim>\<open>StartApp\<close> and the other tasks interleave; it holds after any sequence of
  reads of one reader from a record within the cap; and a single write step ends within
  the cap from any buffer.  A write that brings the buffer above 4096 bytes leaves
  exactly its trailing 2048 bytes; a write that does not leaves the buffer followed by
  the chunk.
\<close>

theorem output_buffer_bounded:
  "(apps (run acts (NewManager configs)) appName = Some app' \<longrightarrow>
      length (OutputBuffer app') \<le> 4096)
   \<and> (apps m appName = Some app \<and> length (OutputBuffer app) \<le> 4096 \<longrightarrow>
      (\<exists>app'. apps (reader appName reads m) appName = Some app'
           \<and> length (OutputBuffer app') \<le> 4096))
   \<and> length (OutputBuffer (capture_write chunk app)) \<le> 4096
   \<and> (length (OutputBuffer app @ chunk) > 4096 \<longrightarrow>
        OutputBuffer (capture_write chunk app)
          = drop (length (OutputBuffer app @ chunk) - 2048) (OutputBuffer app @ chunk)
        \<and> length (OutputBuffer (capture_write chunk app)) = 2048)
   \<and> (length (OutputBuffer app @ chunk) \<le> 4096 \<longrightarrow>
        OutputBuffer (capture_write chunk app) = OutputBuffer app @ chunk)"
  using run_NewManager_bounded [of acts configs appName app']
    reader_bounded [of m appName app reads] capture_write_length [of chunk app]
    capture_write_trim [of app chunk] capture_write_keep [of app chunk]
  by blast

lemma capture_nearly_full:
  "OutputBuffer (capture_write (replicate 1024 (CHR ''b'')) nearly_full)
     = replicate 1024 (CHR ''a'') @ replicate 1024 (CHR ''b'')"
  by (simp add: capture_write_def nearly_full_def Let_def)

theorem output_buffer_bounded_witness:
  "length (OutputBuffer nearly_full @ replicate 1024 (CHR ''b'')) = 5024
   \<and> OutputBuffer (capture_write (replicate 1024 (CHR ''b'')) nearly_full)
       = replicate 1024 (CHR ''a'') @ replicate 1024 (CHR ''b'')
   \<and> length (OutputBuffer (capture_write (replicate 1024 (CHR ''b'')) nearly_full)) = 2048
   \<and> OutputBuffer (capture_write ''hello'' (new_state echo_cfg)) = ''hello''
   \<and> (\<exists>app'. apps (reader ''Echo'' [(''hello'', None), (''world'', Some EOF)] mgr1) ''Echo''
                = Some app' \<and> length (OutputBuffer app') \<le> 4096)
   \<and> (\<exists>app'. apps (run [DoStart (spawn_ok 1 4242) ''Echo'', DoRead ''Echo'' sixty_lines]
                   (NewManager [echo_cfg, web_cfg])) ''Echo'' = Some app'
              \<and> length (OutputBuffer app') \<le> 4096)"
proof -
  have a: "length (OutputBuffer nearly_full @ replicate 1024 (CHR ''b'')) = 5024"
    by (simp add: nearly_full_def)
  have b: "OutputBuffer (capture_write (replicate 1024 (CHR ''b'')) nearly_full)
       = replicate 1024 (CHR ''a'') @ replicate 1024 (CHR ''b'')
     \<and> length (OutputBuffer (capture_write (replicate 1024 (CHR ''b'')) nearly_full)) = 2048"
    using output_buffer_bounded [where app = nearly_full and chunk = "replicate 1024 (CHR ''b'')"
        and m = mgr1 and appName = "''Echo''" and reads = "[]"] a
    by (simp add: nearly_full_def)
  have c: "OutputBuffer (capture_write ''hello'' (new_state echo_cfg)) = ''hello''"
    using output_buffer_bounded [where app = "new_state echo_cfg" and chunk = "''hello''"
        and m = mgr0 and appName = "''Echo''" and reads = "[]"]
    by (simp add: new_state_def)
  have d: "\<exists>app'. apps (reader ''Echo'' [(''hello'', None), (''world'', Some EOF)] mgr1) ''Echo''
                = Some app' \<and> length (OutputBuffer app') \<le> 4096"
    using output_buffer_bounded [where m = mgr1 and appName = "''Echo''"
        and app = "(new_state echo_cfg)\<lparr>Cmd := Some cmd1, Running := True\<rparr>"
        and reads = "[(''hello'', None), (''world'', Some EOF)]" and chunk = "[]"] mgr1_Echo
    by (simp add: new_state_def)
  from mgr_out_Echo obtain app' where "apps mgr_out ''Echo'' = Some app'" by auto
  then have r: "apps (run [DoStart (spawn_ok 1 4242) ''Echo'', DoRead ''Echo'' sixty_lines]
      (NewManager [echo_cfg, web_cfg])) ''Echo'' = Some app'"
    by (simp only: run_mgr_out)
  have e: "\<exists>app'. apps (run [DoStart (spawn_ok 1 4242) ''Echo'', DoRead ''Echo'' sixty_lines]
                   (NewManager [echo_cfg, web_cfg])) ''Echo'' = Some app'
              \<and> length (OutputBuffer app') \<le> 4096"
    using output_buffer_bounded [where app' = app' and appName = "''Echo''"
        and acts = "[DoStart (spawn_ok 1 4242) ''Echo'', DoRead ''Echo'' sixty_lines]"
        and configs = "[echo_cfg, web_cfg]" and m = mgr0 and app = "new_state echo_cfg"
        and reads = "[]" and chunk = "[]"] r
    by blast
  show ?thesis using a b c d e by blast
qed

section \<open>One tick of the health-check loop\<close>

lemma health_tick_other:
  "n \<notin> set ns \<Longrightarrow> apps (fst (health_tick envs ns m)) n = apps m n"
proof (induction ns arbitrary: m)
  case Nil
  then show ?case by simp
next
  case (Cons k ns)
  then show ?case
    by (cases "apps m k") (simp_all add: Let_def case_prod_unfold)
qed

lemma health_tick_app:
  "distinct ns \<Longrightarrow> n \<in> set ns \<Longrightarrow> apps m n = Some app \<Longrightarrow>
     apps (fst (health_tick envs ns m)) n = Some (fst (health_check_app (envs n) app))"
proof (induction ns arbitrary: m)
  case Nil
  then show ?case by simp
next
  case (Cons k ns)
  show ?case
  proof (cases "k = n")
    case True
    with Cons.prems have "n \<notin> set ns" by simp
    from health_tick_other [OF this] True Cons.prems(3) show ?thesis
      by (simp add: Let_def case_prod_unfold)
  next
    case False
    with Cons.prems have n: "n \<in> set ns" "distinct ns" by simp_all
    show ?thesis
    proof (cases "apps m k")
      case None
      with Cons.IH [OF n(2) n(1) Cons.prems(3)] show ?thesis by simp
    next
      case (Some appk)
      have "apps (m\<lparr>apps := (apps m)(k \<mapsto> fst (health_check_app (envs k) appk))\<rparr>) n = Some app"
        using False Cons.prems(3) by simp
      from Cons.IH [OF n(2) n(1) this] Some show ?thesis
        by (simp add: Let_def case_prod_unfold)
    qed
  qed
qed

lemma health_tick_events:
  "distinct ns \<Longrightarrow> ev \<in> set (snd (health_tick envs ns m)) \<Longrightarrow>
     \<exists>n app. n \<in> set ns \<and> apps m n = Some app \<and> ev \<in> set (snd (health_check_app (envs n) app))"
proof (induction ns arbitrary: m)
  case Nil
  then show ?case by simp
next
  case (Cons k ns)
  show ?case
  proof (cases "apps m k")
    case None
    with Cons.prems have "ev \<in> set (snd (health_tick envs ns m))" "distinct ns" by simp_all
    from Cons.IH [OF this(2) this(1)] show ?thesis by auto
  next
    case (Some appk)
    let ?m = "m\<lparr>apps := (apps m)(k \<mapsto> fst (health_check_app (envs k) appk))\<rparr>"
    from Cons.prems Some
    consider "ev \<in> set (snd (health_check_app (envs k) appk))"
      | "ev \<in> set (snd (health_tick envs ns ?m))"
      by (auto simp add: Let_def case_prod_unfold)
    then show ?thesis
    proof cases
      case 1
      with Some show ?thesis by auto
    next
      case 2
      from Cons.prems have d: "distinct ns" "k \<notin> set ns" by simp_all
      from Cons.IH [OF d(1) 2] obtain n app where
        n: "n \<in> set ns" "apps ?m n = Some app" "ev \<in> set (snd (health_check_app (envs n) app))"
        by blast
      with d(2) have "n \<noteq> k" by auto
      with n show ?thesis by auto
    qed
  qed
qed

lemma health_check_app_events:
  "ev \<in> set (snd (health_check_app env app)) \<Longrightarrow>
     Running app \<and> HealthURL (Config app) \<noteq> [] \<and> ev = HttpGet (HealthURL (Config app))"
  by (auto simp add: health_check_app_def health_check_write_def CheckAppHealth_def Let_def split: if_splits)

text \<open>
  Claim C7.  On a tick, every record the loop visits (the names are visited once each)
  is treated according to its \<^verbatim>\<open>Running\<close> flag: a running record receives the result
  of \<^verbatim>\<open>CheckAppHealth\<close>; a record that is not running gets \<^verbatim>\<open>HealthStatus\<close> "Stopped"
  and \<^verbatim>\<open>HealthLastCheck\<close> the current time, and no GET is issued for it: every GET of
  the tick goes to the health URL of a record that was running.  The last two lines say
  the same of a single write, whatever has happened to the record since the flag was
  read.
\<close>

theorem health_tick_contract:
  "(distinct names \<and> n \<in> set names \<and> apps m n = Some app \<and> Running app \<longrightarrow>
      apps (fst (health_tick envs names m)) n = Some (fst (CheckAppHealth (envs n) app)))
   \<and> (distinct names \<and> n \<in> set names \<and> apps m n = Some app \<and> \<not> Running app \<longrightarrow>
      apps (fst (health_tick envs names m)) n
        = Some (app\<lparr>HealthStatus := ''Stopped'', HealthLastCheck := now (envs n)\<rparr>))
   \<and> (distinct names \<and> HttpGet url \<in> set (snd (health_tick envs names m)) \<longrightarrow>
      (\<exists>k appk. k \<in> set names \<and> apps m k = Some appk \<and> Running appk
         \<and> HealthURL (Config appk) = url))
   \<and> health_check_write env True app = CheckAppHealth env app
   \<and> health_check_write env False app
       = (app\<lparr>HealthStatus := ''Stopped'', HealthLastCheck := now env\<rparr>, [])"
proof -
  have a: "apps (fst (health_tick envs names m)) n = Some (fst (CheckAppHealth (envs n) app))"
    if "distinct names" "n \<in> set names" "apps m n = Some app" "Running app"
    using health_tick_app [OF that(1,2,3), of envs] that(4) by (simp add: health_check_app_def health_check_write_def)
  have b: "apps (fst (health_tick envs names m)) n
        = Some (app\<lparr>HealthStatus := ''Stopped'', HealthLastCheck := now (envs n)\<rparr>)"
    if "distinct names" "n \<in> set names" "apps m n = Some app" "\<not> Running app"
    using health_tick_app [OF that(1,2,3), of envs] that(4)
    by (simp add: health_check_app_def health_check_write_def Let_def)
  have c: "\<exists>k appk. k \<in> set names \<and> apps m k = Some appk \<and> Running appk
         \<and> HealthURL (Config appk) = url"
    if "distinct names" "HttpGet url \<in> set (snd (health_tick envs names m))"
  proof -
    from health_tick_events [OF that] obtain k appk where
      k: "k \<in> set names" "apps m k = Some appk"
        "HttpGet url \<in> set (snd (health_check_app (envs k) appk))"
      by blast
    from health_check_app_events [OF k(3)] k(1,2) show ?thesis by auto
  qed
  have d: "health_check_write env True app = CheckAppHealth env app
      \<and> health_check_write env False app
       = (app\<lparr>HealthStatus := ''Stopped'', HealthLastCheck := now env\<rparr>, [])"
    by (simp add: health_check_write_def Let_def)
  show ?thesis using a b c d by blast
qed

lemma tick_mgrW_events:
  "snd (health_tick tick_world [''Echo'', ''Web''] mgrW) = [HttpGet ''http://127.0.0.1:6972/health'']"
  by (simp add: mgrW_Echo mgrW_Web Let_def health_check_app_def health_check_write_def CheckAppHealth_def
      new_state_def web_cfg_def echo_cfg_def tick_world_def probe_world_def)

theorem health_tick_contract_witness:
  "map_option HealthStatus (apps (fst (health_tick tick_world [''Echo'', ''Web''] mgrW)) ''Web'')
     = Some ''Healthy''
   \<and> map_option HealthLastCheck (apps (fst (health_tick tick_world [''Echo'', ''Web''] mgrW)) ''Web'')
     = Some 99
   \<and> map_option HealthStatus (apps (fst (health_tick tick_world [''Echo'', ''Web''] mgrW)) ''Echo'')
     = Some ''Stopped''
   \<and> map_option HealthLastCheck (apps (fst (health_tick tick_world [''Echo'', ''Web''] mgrW)) ''Echo'')
     = Some 99
   \<and> snd (health_tick tick_world [''Echo'', ''Web''] mgrW)
     = [HttpGet ''http://127.0.0.1:6972/health'']
   \<and> map_option Running (apps mgrW ''Web'') = Some True
   \<and> map_option (\<lambda>a. HealthURL (Config a)) (apps mgrW ''Web'')
     = Some ''http://127.0.0.1:6972/health''
   \<and> snd (health_check_write (tick_world ''Echo'') False (new_state echo_cfg)) = []"
proof -
  have dn: "distinct [''Echo'', ''Web'']" by simp
  have a: "apps (fst (health_tick tick_world [''Echo'', ''Web''] mgrW)) ''Web''
      = Some (fst (CheckAppHealth (tick_world ''Web'')
          ((new_state web_cfg)\<lparr>Cmd := Some cmdW, Running := True\<rparr>)))"
    using health_tick_contract [where names = "[''Echo'', ''Web'']" and n = "''Web''"
        and m = mgrW and envs = tick_world
        and app = "(new_state web_cfg)\<lparr>Cmd := Some cmdW, Running := True\<rparr>"
        and url = "''http://127.0.0.1:6972/health''"] mgrW_Web dn
    by simp
  have b: "apps (fst (health_tick tick_world [''Echo'', ''Web''] mgrW)) ''Echo''
      = Some ((new_state echo_cfg)\<lparr>HealthStatus := ''Stopped'',
            HealthLastCheck := now (tick_world ''Echo'')\<rparr>)
    \<and> snd (health_check_write (tick_world ''Echo'') False (new_state echo_cfg)) = []"
    using health_tick_contract [where names = "[''Echo'', ''Web'']" and n = "''Echo''"
        and m = mgrW and envs = tick_world and app = "new_state echo_cfg"
        and env = "tick_world ''Echo''"
        and url = "''http://127.0.0.1:6972/health''"] mgrW_Echo dn
    by (simp add: new_state_def)
  have c: "\<exists>k appk. k \<in> set [''Echo'', ''Web''] \<and> apps mgrW k = Some appk \<and> Running appk
         \<and> HealthURL (Config appk) = ''http://127.0.0.1:6972/health''"
    using health_tick_contract [where names = "[''Echo'', ''Web'']" and n = "''Echo''"
        and m = mgrW and envs = tick_world and app = "new_state echo_cfg"
        and url = "''http://127.0.0.1:6972/health''"] tick_mgrW_events dn
    by simp
  have a': "map_option HealthStatus (apps (fst (health_tick tick_world [''Echo'', ''Web''] mgrW)) ''Web'')
       = Some ''Healthy''
     \<and> map_option HealthLastCheck (apps (fst (health_tick tick_world [''Echo'', ''Web''] mgrW)) ''Web'')
       = Some 99"
    unfolding a
    by (simp add: CheckAppHealth_def Let_def new_state_def web_cfg_def tick_world_def probe_world_def)
  have b': "map_option HealthStatus (apps (fst (health_tick tick_world [''Echo'', ''Web''] mgrW)) ''Echo'')
       = Some ''Stopped''
     \<and> map_option HealthLastCheck (apps (fst (health_tick tick_world [''Echo'', ''Web''] mgrW)) ''Echo'')
       = Some 99"
    using b by (simp add: tick_world_def probe_world_def)
  have w: "map_option Running (apps mgrW ''Web'') = Some True
     \<and> map_option (\<lambda>a. HealthURL (Config a)) (apps mgrW ''Web'')
       = Some ''http://127.0.0.1:6972/health''"
    by (simp add: mgrW_Web new_state_def web_cfg_def)
  show ?thesis using a' b' b c w tick_mgrW_events by blast
qed

section \<open>The last lines of the output\<close>












lemma sixty_lines_last: "last_lines sixty_lines = bytes_Join (map string_of_nat [11..<61])"
  unfolding sixty_lines_def by code_simp


text \<open>
  The same sixty lines, each ended by a newline, split into 61 pieces; the answer is
  then the lines 12 to 60 and the empty piece after the last newline.
\<close>

lemma sixty_lines_terminated:
  "length (bytes_Split (sixty_lines @ [newline])) = 61
   \<and> last_lines (sixty_lines @ [newline]) = bytes_Join (map string_of_nat [12..<61]) @ [newline]"
  unfolding sixty_lines_def by code_simp

end
